theory Spec2Isabelle
  imports Main
begin

section \<open>Errors\<close>

text \<open>The Python exceptions the modelled functions can raise.\<close>

datatype error = KeyError | IndexError | AttributeError | TypeError

section \<open>Static tables (tabs.py)\<close>

text \<open>
  \<^verbatim>\<open>NOTE_TO_STRING\<close>: the dict literal, row by row in source order. A fret cell
  holding the empty string is \<open>None\<close>. The literal names \<^verbatim>\<open>'F2'\<close> and \<^verbatim>\<open>'B1'\<close>
  twice; in a Python dict literal the later value replaces the earlier one.
\<close>

definition NOTE_TO_STRING_items :: "(string \<times> (int \<times> int option) list) list" where
  "NOTE_TO_STRING_items = [
  (''F4'', [(1, Some 1), (2, Some 6), (3, Some 10), (4, Some 15), (5, Some 20), (6, None)]),
  (''F#4'', [(1, Some 2), (2, Some 7), (3, Some 11), (4, Some 16), (5, Some 21), (6, None)]),
  (''G4'', [(1, Some 3), (2, Some 8), (3, Some 12), (4, Some 17), (5, Some 22), (6, None)]),
  (''Ab4'', [(1, Some 4), (2, Some 9), (3, Some 13), (4, Some 18), (5, None), (6, None)]),
  (''G#4'', [(1, Some 4), (2, Some 9), (3, Some 13), (4, Some 18), (5, None), (6, None)]),
  (''A4'', [(1, Some 5), (2, Some 10), (3, Some 14), (4, Some 19), (5, None), (6, None)]),
  (''Bb4'', [(1, Some 6), (2, Some 11), (3, Some 15), (4, Some 20), (5, None), (6, None)]),
  (''A#4'', [(1, Some 6), (2, Some 11), (3, Some 15), (4, Some 20), (5, None), (6, None)]),
  (''B4'', [(1, Some 7), (2, Some 12), (3, Some 16), (4, Some 21), (5, None), (6, None)]),
  (''C5'', [(1, Some 8), (2, Some 13), (3, Some 17), (4, Some 22), (5, None), (6, None)]),
  (''C#5'', [(1, Some 9), (2, Some 14), (3, Some 18), (4, None), (5, None), (6, None)]),
  (''D5'', [(1, Some 10), (2, Some 15), (3, Some 19), (4, None), (5, None), (6, None)]),
  (''Eb5'', [(1, Some 11), (2, Some 16), (3, Some 20), (4, None), (5, None), (6, None)]),
  (''D#5'', [(1, Some 11), (2, Some 16), (3, Some 20), (4, None), (5, None), (6, None)]),
  (''E5'', [(1, Some 12), (2, Some 17), (3, Some 21), (4, None), (5, None), (6, None)]),
  (''F5'', [(1, Some 13), (2, Some 18), (3, Some 22), (4, None), (5, None), (6, None)]),
  (''F#5'', [(1, Some 14), (2, Some 19), (3, None), (4, None), (5, None), (6, None)]),
  (''G5'', [(1, Some 15), (2, Some 20), (3, None), (4, None), (5, None), (6, None)]),
  (''Ab5'', [(1, Some 16), (2, Some 21), (3, None), (4, None), (5, None), (6, None)]),
  (''G#5'', [(1, Some 16), (2, Some 21), (3, None), (4, None), (5, None), (6, None)]),
  (''A5'', [(1, Some 17), (2, Some 22), (3, None), (4, None), (5, None), (6, None)]),
  (''Bb5'', [(1, Some 18), (2, None), (3, None), (4, None), (5, None), (6, None)]),
  (''A#5'', [(1, Some 18), (2, None), (3, None), (4, None), (5, None), (6, None)]),
  (''B5'', [(1, Some 19), (2, None), (3, None), (4, None), (5, None), (6, None)]),
  (''C6'', [(1, Some 20), (2, None), (3, None), (4, None), (5, None), (6, None)]),
  (''C#6'', [(1, Some 21), (2, None), (3, None), (4, None), (5, None), (6, None)]),
  (''D6'', [(1, Some 22), (2, None), (3, None), (4, None), (5, None), (6, None)]),
  (''C4'', [(1, None), (2, Some 1), (3, Some 5), (4, Some 10), (5, Some 15), (6, Some 20)]),
  (''C#4'', [(1, None), (2, Some 2), (3, Some 6), (4, Some 11), (5, Some 16), (6, Some 21)]),
  (''D4'', [(1, None), (2, Some 3), (3, Some 7), (4, Some 12), (5, Some 17), (6, Some 22)]),
  (''Eb4'', [(1, None), (2, Some 4), (3, Some 8), (4, Some 13), (5, Some 18), (6, None)]),
  (''D#4'', [(1, None), (2, Some 4), (3, Some 8), (4, Some 13), (5, Some 18), (6, None)]),
  (''E4'', [(1, None), (2, Some 5), (3, Some 9), (4, Some 14), (5, Some 19), (6, None)]),
  (''Ab3'', [(1, None), (2, None), (3, Some 1), (4, Some 6), (5, Some 11), (6, Some 16)]),
  (''G#3'', [(1, None), (2, None), (3, Some 1), (4, Some 6), (5, Some 11), (6, Some 16)]),
  (''A3'', [(1, None), (2, None), (3, Some 2), (4, Some 7), (5, Some 12), (6, Some 17)]),
  (''Bb3'', [(1, None), (2, None), (3, Some 3), (4, Some 8), (5, Some 13), (6, Some 18)]),
  (''A#3'', [(1, None), (2, None), (3, Some 3), (4, Some 8), (5, Some 13), (6, Some 18)]),
  (''B3'', [(1, None), (2, None), (3, Some 4), (4, Some 9), (5, Some 14), (6, Some 19)]),
  (''Eb3'', [(1, None), (2, None), (3, None), (4, Some 1), (5, Some 6), (6, Some 11)]),
  (''D#3'', [(1, None), (2, None), (3, None), (4, Some 1), (5, Some 6), (6, Some 11)]),
  (''E3'', [(1, None), (2, None), (3, None), (4, Some 2), (5, Some 7), (6, Some 12)]),
  (''F3'', [(1, None), (2, None), (3, None), (4, Some 3), (5, Some 8), (6, Some 13)]),
  (''F#3'', [(1, None), (2, None), (3, None), (4, Some 4), (5, Some 9), (6, Some 14)]),
  (''G3'', [(1, None), (2, None), (3, None), (4, Some 5), (5, Some 10), (6, Some 15)]),
  (''Bb2'', [(1, None), (2, None), (3, None), (4, None), (5, Some 1), (6, Some 6)]),
  (''A#2'', [(1, None), (2, None), (3, None), (4, None), (5, Some 1), (6, Some 6)]),
  (''B2'', [(1, None), (2, None), (3, None), (4, None), (5, Some 2), (6, Some 7)]),
  (''C3'', [(1, None), (2, None), (3, None), (4, None), (5, Some 3), (6, Some 8)]),
  (''C#3'', [(1, None), (2, None), (3, None), (4, None), (5, Some 4), (6, Some 9)]),
  (''D3'', [(1, None), (2, None), (3, None), (4, None), (5, Some 5), (6, Some 10)]),
  (''F2'', [(1, None), (2, None), (3, None), (4, None), (5, None), (6, Some 1)]),
  (''F#2'', [(1, None), (2, None), (3, None), (4, None), (5, None), (6, Some 2)]),
  (''G2'', [(1, None), (2, None), (3, None), (4, None), (5, None), (6, Some 3)]),
  (''Ab2'', [(1, None), (2, None), (3, None), (4, None), (5, None), (6, Some 4)]),
  (''G#2'', [(1, None), (2, None), (3, None), (4, None), (5, None), (6, Some 4)]),
  (''A2'', [(1, None), (2, None), (3, None), (4, None), (5, None), (6, Some 5)]),
  (''B1'', [(1, None), (2, None), (3, None), (4, None), (5, None), (6, Some 5)]),
  (''C#2'', [(1, None), (2, None), (3, None), (4, None), (5, None), (6, None)]),
  (''Db2'', [(1, None), (2, None), (3, None), (4, None), (5, None), (6, None)]),
  (''D2'', [(1, None), (2, None), (3, None), (4, None), (5, None), (6, None)]),
  (''D#2'', [(1, None), (2, None), (3, None), (4, None), (5, None), (6, None)]),
  (''Eb2'', [(1, None), (2, None), (3, None), (4, None), (5, None), (6, None)]),
  (''E2'', [(1, None), (2, None), (3, None), (4, None), (5, None), (6, None)]),
  (''F2'', [(1, None), (2, None), (3, None), (4, None), (5, None), (6, None)]),
  (''F#1'', [(1, None), (2, None), (3, None), (4, None), (5, None), (6, None)]),
  (''Gb1'', [(1, None), (2, None), (3, None), (4, None), (5, None), (6, None)]),
  (''G1'', [(1, None), (2, None), (3, None), (4, None), (5, None), (6, None)]),
  (''G#1'', [(1, None), (2, None), (3, None), (4, None), (5, None), (6, None)]),
  (''Ab1'', [(1, None), (2, None), (3, None), (4, None), (5, None), (6, None)]),
  (''A1'', [(1, None), (2, None), (3, None), (4, None), (5, None), (6, None)]),
  (''A#1'', [(1, None), (2, None), (3, None), (4, None), (5, None), (6, None)]),
  (''Bb1'', [(1, None), (2, None), (3, None), (4, None), (5, None), (6, None)]),
  (''B1'', [(1, None), (2, None), (3, None), (4, None), (5, None), (6, None)]),
  (''F7'', [(1, Some 14), (2, Some 19), (3, None), (4, None), (5, None), (6, None)])]"

definition NOTE_TO_STRING :: "string \<Rightarrow> (int \<times> int option) list option" where
  "NOTE_TO_STRING = map_of (rev NOTE_TO_STRING_items)"

definition SCALE :: "string \<Rightarrow> int list option" where
  "SCALE = map_of [
  (''major'', [2, 2, 1, 2, 2, 2, 1]),
  (''ionian'', [2, 2, 1, 2, 2, 2, 1]),
  (''dorian'', [2, 1, 2, 2, 2, 1, 2]),
  (''phrygian'', [1, 2, 2, 2, 1, 2, 2]),
  (''lydian'', [2, 2, 2, 1, 2, 2, 1]),
  (''mixolydian'', [2, 2, 1, 2, 2, 1, 2]),
  (''locrian'', [1, 2, 2, 1, 2, 2, 2]),
  (''minor'', [2, 1, 2, 2, 1, 2, 2]),
  (''aeolian'', [2, 1, 2, 2, 1, 2, 2]),
  (''jazz_minor'', [2, 1, 2, 2, 2, 2, 1])]"

definition MAJOR :: string where "MAJOR = ''major''"
definition IONIAN :: string where "IONIAN = ''ionian''"
definition DORIAN :: string where "DORIAN = ''dorian''"
definition PHRYGIAN :: string where "PHRYGIAN = ''phrygian''"
definition LYDIAN :: string where "LYDIAN = ''lydian''"
definition LOCRIAN :: string where "LOCRIAN = ''locrian''"
definition MINOR :: string where "MINOR = ''minor''"
definition AEOLIAN :: string where "AEOLIAN = ''aeolian''"
definition JAZZ_MINOR :: string where "JAZZ_MINOR = ''jazz_minor''"

definition GUITAR_STAFF :: "nat \<Rightarrow> string" where
  "GUITAR_STAFF idx = [''E'', ''A'', ''D'', ''G'', ''B'', ''E''] ! idx"

definition GUITAR_STRING :: nat where "GUITAR_STRING = 6"
definition MAX_RENDER_COLUMNS :: int where "MAX_RENDER_COLUMNS = 70"
definition TAB_LINE_CHAR :: char where "TAB_LINE_CHAR = CHR ''-''"

section \<open>Keys, pitches and scales\<close>

text \<open>
  The key's pitch is either a plain string or a music21 \<^verbatim>\<open>Pitch\<close> object, of which
  the code reads \<^verbatim>\<open>nameWithOctave\<close> and \<^verbatim>\<open>implicitOctave\<close>.
\<close>

datatype pitch = Str string | Pitch (nameWithOctave: string) (implicitOctave: int)

text \<open>The music21 scale classes \<^verbatim>\<open>_get_scale\<close> chooses between.\<close>

datatype scale =
    MajorScale pitch | MinorScale pitch | DorianScale pitch
  | PhrygianScale pitch | LydianScale pitch | LocrianScale pitch

fun get_scale :: "pitch \<times> string \<Rightarrow> scale" where
  "get_scale (pitch, scale_type) =
     (if scale_type \<in> set [MAJOR, IONIAN] then MajorScale pitch
      else if scale_type \<in> set [MINOR, AEOLIAN] then MinorScale pitch
      else if scale_type = DORIAN then DorianScale pitch
      else if scale_type = PHRYGIAN then PhrygianScale pitch
      else if scale_type = LYDIAN then LydianScale pitch
      else if scale_type = LOCRIAN then LocrianScale pitch
      else MajorScale pitch)"

text \<open>Decimal rendering of an integer, Python's \<^verbatim>\<open>str\<close> on an \<^verbatim>\<open>int\<close>.\<close>

definition digit_char :: "nat \<Rightarrow> char" where
  "digit_char d = ''0123456789'' ! d"

fun str_nat :: "nat \<Rightarrow> string" where
  "str_nat n = (if n < 10 then [digit_char n] else str_nat (n div 10) @ [digit_char (n mod 10)])"

declare str_nat.simps [simp del]

definition str_int :: "int \<Rightarrow> string" where
  "str_int i = (if i < 0 then CHR ''-'' # str_nat (nat (- i)) else str_nat (nat i))"

definition is_digit :: "char \<Rightarrow> bool" where
  "is_digit c = (c \<in> set ''0123456789'')"

text \<open>
  \<^verbatim>\<open>_fix_note_name\<close>: flats written with \<^verbatim>\<open>-\<close> become \<^verbatim>\<open>b\<close>; a name that does
  not end in a digit gets the pitch's implicit octave appended, which a plain
  string does not have.
\<close>

definition fix_note_name :: "pitch \<Rightarrow> error + string" where
  "fix_note_name pitch =
     (let name = (case pitch of Str s \<Rightarrow> s | Pitch n _ \<Rightarrow> n);
          name = map (\<lambda>c. if c = CHR ''-'' then CHR ''b'' else c) name
      in if name = [] then Inl IndexError
         else if is_digit (last name) then Inr name
         else (case pitch of
                 Str _ \<Rightarrow> Inl AttributeError
               | Pitch _ oct \<Rightarrow> Inr (name @ str_int oct)))"

section \<open>Start-position finder\<close>

text \<open>
  The \<^verbatim>\<open>while\<close> loop of \<^verbatim>\<open>find_start\<close> for one string on which the first scale
  note is reachable. \<open>span\<close> counts down from 8. The loop state is
  \<open>(string, fret, num_notes, step, note_list)\<close>, the running best is
  \<open>(max_count, start_fret, start_string, start_scale_notes)\<close>.
\<close>

fun walk :: "int list \<Rightarrow> int \<Rightarrow> int \<Rightarrow> nat
    \<Rightarrow> int \<times> int \<times> int \<times> nat \<times> (int \<times> int) list
    \<Rightarrow> int \<times> int \<times> int \<times> (int \<times> int) list
    \<Rightarrow> int \<times> int \<times> int \<times> (int \<times> int) list" where
  "walk this_scale_step note_string note_fret 0 st best = best"
| "walk this_scale_step note_string note_fret (Suc span)
       (string, fret, num_notes, step, note_list)
       (max_count, start_fret, start_string, start_scale_notes) =
     (if string > 0 then
        (let fret1 = fret + this_scale_step ! step;
             step1 = step + 1;
             num_notes1 = num_notes + 1;
             note_list1 = note_list @ [(fret1, string)];
             step2 = (if step1 \<ge> length this_scale_step then 0 else step1);
             fret2 = (if fret1 > note_fret + 3
                      then fret1 - (if string = 2 then 4 else 5) else fret1);
             string2 = (if fret1 > note_fret + 3 then string - 1 else string);
             best1 = (if num_notes1 > max_count
                      then (num_notes1, note_fret, note_string, note_list1)
                      else (max_count, start_fret, start_string, start_scale_notes))
         in walk this_scale_step note_string note_fret span
              (string2, fret2, num_notes1, step2, note_list1) best1)
      else (max_count, start_fret, start_string, start_scale_notes))"

text \<open>The \<^verbatim>\<open>for\<close> loop over the strings of the first scale note.\<close>

fun find_start_loop :: "int list \<Rightarrow> (int \<times> int option) list
    \<Rightarrow> int \<times> int \<times> int \<times> (int \<times> int) list
    \<Rightarrow> int \<times> int \<times> int \<times> (int \<times> int) list" where
  "find_start_loop this_scale_step [] best = best"
| "find_start_loop this_scale_step ((note_string, None) # rest) best =
     find_start_loop this_scale_step rest best"
| "find_start_loop this_scale_step ((note_string, Some note_fret) # rest) best =
     find_start_loop this_scale_step rest
       (if note_fret = 0 then best
        else walk this_scale_step note_string note_fret 8
               (note_string, note_fret, 0, 0, [(note_fret, note_string)]) best)"

text \<open>
  \<^verbatim>\<open>find_start\<close>. \<open>pitches\<close> stands for music21: it gives the
  \<^verbatim>\<open>nameWithOctave\<close> of each pitch of a scale object.
\<close>

definition find_start :: "(scale \<Rightarrow> string list) \<Rightarrow> pitch \<times> string
    \<Rightarrow> error + (int \<times> int \<times> (int \<times> int) list)" where
  "find_start pitches key =
     (case fix_note_name (fst key) of Inl e \<Rightarrow> Inl e | Inr _ \<Rightarrow>
      (case SCALE (snd key) of None \<Rightarrow> Inl KeyError | Some this_scale_step \<Rightarrow>
       (case pitches (get_scale key) of [] \<Rightarrow> Inl IndexError | first_note # _ \<Rightarrow>
        (case fix_note_name (Str first_note) of Inl e \<Rightarrow> Inl e | Inr name \<Rightarrow>
         (case NOTE_TO_STRING name of None \<Rightarrow> Inl KeyError | Some note_info \<Rightarrow>
            (case find_start_loop this_scale_step note_info (0, 0, 0, [])
             of (max_count, start_fret, start_string, start_scale_notes) \<Rightarrow>
                  Inr (start_fret, start_string, start_scale_notes)))))))"

section \<open>Note assigner\<close>

text \<open>A performed note: \<^verbatim>\<open>dict(note=..., time=...)\<close>.\<close>

record played =
  pitch_name :: string
  time :: int

text \<open>
  The \<^verbatim>\<open>Tabs\<close> object (\<open>played_notes\<close> is its field \<^verbatim>\<open>notes\<close>);
  \<^verbatim>\<open>__init__\<close> starts it with an empty cache.
\<close>

record tabs =
  played_notes :: "played list"
  key :: "pitch \<times> string"
  notes_cache :: "string \<rightharpoonup> int \<times> int"

definition init :: "played list \<Rightarrow> pitch \<times> string \<Rightarrow> tabs" where
  "init ns k = \<lparr>played_notes = ns, key = k, notes_cache = Map.empty\<rparr>"

text \<open>
  The \<^verbatim>\<open>for\<close> loop of \<^verbatim>\<open>note_nearest_to_fret\<close> over the row of the note.
  \<open>cached\<close> is \<^verbatim>\<open>self.notes_cache.get(note)\<close>, which the loop does not change; a
  cached pair is a non-empty tuple, hence truthy. The state is
  \<open>(min_fret, min_string, min_diff)\<close>. \<open>Inl\<close> is a \<^verbatim>\<open>return\<close> from inside the
  loop, \<open>Inr\<close> the state when the loop has run through.
\<close>

fun nearest_loop :: "int \<Rightarrow> (int \<times> int) list \<Rightarrow> (int \<times> int) option
    \<Rightarrow> (int \<times> int option) list \<Rightarrow> int \<times> int \<times> int
    \<Rightarrow> (int \<times> int) + (int \<times> int \<times> int)" where
  "nearest_loop fret scale_notes cached [] st = Inr st"
| "nearest_loop fret scale_notes cached ((note_string, None) # rest) st =
     nearest_loop fret scale_notes cached rest st"
| "nearest_loop fret scale_notes cached ((note_string, Some note_fret) # rest)
       (min_fret, min_string, min_diff) =
     (if note_fret = 0 then
        nearest_loop fret scale_notes cached rest (min_fret, min_string, min_diff)
      else if (note_fret, note_string) \<in> set scale_notes then Inl (note_fret, note_string)
      else (case cached of
              Some c \<Rightarrow> Inl c
            | None \<Rightarrow>
                (let diff = \<bar>note_fret - fret\<bar>
                 in if diff \<le> min_diff
                    then nearest_loop fret scale_notes cached rest (note_fret, note_string, diff)
                    else nearest_loop fret scale_notes cached rest
                           (min_fret, min_string, min_diff))))"

text \<open>
  \<^verbatim>\<open>note_nearest_to_fret\<close>, with the cache passed in and returned. The result
  \<open>None\<close> is the pair \<^verbatim>\<open>(None, None)\<close> of a note without a row.
\<close>

definition note_nearest_to_fret :: "(string \<rightharpoonup> int \<times> int) \<Rightarrow> int \<Rightarrow> string
    \<Rightarrow> (int \<times> int) list \<Rightarrow> (int \<times> int) option \<times> (string \<rightharpoonup> int \<times> int)" where
  "note_nearest_to_fret cache fret note_name scale_notes =
     (case NOTE_TO_STRING note_name of
        None \<Rightarrow> (None, cache)
      | Some note_info \<Rightarrow>
          if note_info = [] then (None, cache)
          else (case nearest_loop fret scale_notes (cache note_name) note_info (999, 999, 999) of
                  Inl r \<Rightarrow> (Some r, cache)
                | Inr (min_fret, min_string, min_diff) \<Rightarrow>
                    (Some (min_fret, min_string),
                     cache(note_name \<mapsto> (min_fret, min_string)))))"

text \<open>
  The \<^verbatim>\<open>for\<close> loop of \<^verbatim>\<open>generate_notes\<close>. A note without a row is skipped
  before \<^verbatim>\<open>note_nearest_to_fret\<close> is called, so the pair \<^verbatim>\<open>(None, None)\<close> never
  reaches \<^verbatim>\<open>to_play\<close>; the model marks that branch with \<open>TypeError\<close>, and
  \<open>generate_loop_total\<close> below shows it is never taken.
\<close>

fun generate_loop :: "(int \<times> int) list \<Rightarrow> played list \<Rightarrow> int \<Rightarrow> (string \<rightharpoonup> int \<times> int)
    \<Rightarrow> (string \<times> int \<times> int) list
    \<Rightarrow> error + ((string \<times> int \<times> int) list \<times> int \<times> (string \<rightharpoonup> int \<times> int))" where
  "generate_loop scale_notes [] fret cache to_play = Inr (to_play, fret, cache)"
| "generate_loop scale_notes (n # ns) fret cache to_play =
     (case NOTE_TO_STRING (pitch_name n) of
        None \<Rightarrow> generate_loop scale_notes ns fret cache to_play
      | Some _ \<Rightarrow>
          (case note_nearest_to_fret cache fret (pitch_name n) scale_notes of
             (Some (note_fret, note_string), cache') \<Rightarrow>
               generate_loop scale_notes ns note_fret cache'
                 (to_play @ [(pitch_name n, note_string, note_fret)])
           | (None, cache') \<Rightarrow> Inl TypeError))"

text \<open>
  \<^verbatim>\<open>generate_notes\<close>: the triples \<open>(note, string, fret)\<close> and the object with
  its cache as the call leaves it.
\<close>

definition generate_notes :: "(scale \<Rightarrow> string list) \<Rightarrow> tabs
    \<Rightarrow> error + ((string \<times> int \<times> int) list \<times> tabs)" where
  "generate_notes pitches self =
     (case find_start pitches (key self) of
        Inl e \<Rightarrow> Inl e
      | Inr (fret, _, scale_notes) \<Rightarrow>
          (case generate_loop scale_notes (played_notes self) fret (notes_cache self) [] of
             Inl e \<Rightarrow> Inl e
           | Inr (to_play, _, cache') \<Rightarrow> Inr (to_play, self\<lparr>notes_cache := cache'\<rparr>)))"

section \<open>Tab renderer\<close>

text \<open>Python indexing and slicing of a sequence, negative positions from the end.\<close>

definition py_index :: "'a list \<Rightarrow> int \<Rightarrow> error + nat" where
  "py_index xs i =
     (if 0 \<le> i \<and> i < int (length xs) then Inr (nat i)
      else if i < 0 \<and> - int (length xs) \<le> i then Inr (nat (int (length xs) + i))
      else Inl IndexError)"

definition py_bound :: "'a list \<Rightarrow> int \<Rightarrow> nat" where
  "py_bound xs i =
     (let n = int (length xs); j = (if i < 0 then n + i else i)
      in nat (max 0 (min n j)))"

definition py_slice :: "'a list \<Rightarrow> int \<Rightarrow> int \<Rightarrow> 'a list" where
  "py_slice xs start end_pos =
     take (py_bound xs end_pos - py_bound xs start) (drop (py_bound xs start) xs)"

definition py_slice_from :: "'a list \<Rightarrow> int \<Rightarrow> 'a list" where
  "py_slice_from xs start = drop (py_bound xs start) xs"

text \<open>
  One triple of the first loop of \<^verbatim>\<open>render\<close>: the target string is filled up
  to the length of every longer string, then gets the fret between two dashes.
\<close>

definition fill_step :: "nat \<Rightarrow> nat \<Rightarrow> string list \<Rightarrow> string list" where
  "fill_step target idx fretboard =
     (if length (fretboard ! idx) > length (fretboard ! target)
      then fretboard[target := fretboard ! target @
             replicate (length (fretboard ! idx) - length (fretboard ! target)) TAB_LINE_CHAR]
      else fretboard)"

definition place :: "string list \<Rightarrow> string \<times> int \<times> int \<Rightarrow> error + string list" where
  "place fretboard triple =
     (case triple of (note_name, note_string, note_fret) \<Rightarrow>
        (case py_index fretboard (note_string - 1) of
           Inl e \<Rightarrow> Inl e
         | Inr target \<Rightarrow>
             (let filled = fold (fill_step target) [0..<length fretboard] fretboard
              in Inr (filled[target := filled ! target @
                        [TAB_LINE_CHAR] @ str_int note_fret @ [TAB_LINE_CHAR]]))))"

fun place_all :: "string list \<Rightarrow> (string \<times> int \<times> int) list \<Rightarrow> error + string list" where
  "place_all fretboard [] = Inr fretboard"
| "place_all fretboard (t # ts) =
     (case place fretboard t of Inl e \<Rightarrow> Inl e | Inr fretboard' \<Rightarrow> place_all fretboard' ts)"

text \<open>\<^verbatim>\<open>max(fretboard, key=len)\<close>: the first string of greatest length.\<close>

definition max_by_len :: "string list \<Rightarrow> string" where
  "max_by_len fretboard =
     fold (\<lambda>s best. if length s > length best then s else best) (tl fretboard) (hd fretboard)"

definition pad_all :: "string list \<Rightarrow> string list" where
  "pad_all fretboard =
     (let max_staff_length = length (max_by_len fretboard)
      in map (\<lambda>s. s @ replicate (max_staff_length - length s) TAB_LINE_CHAR) fretboard)"

text \<open>
  The loop that moves \<^verbatim>\<open>break_point\<close>: it reads \<^verbatim>\<open>string[break_point]\<close> of each
  of the six strings, which raises \<^verbatim>\<open>IndexError\<close> past the end of the string.
\<close>

fun break_loop :: "string list \<Rightarrow> int \<Rightarrow> error + int" where
  "break_loop [] break_point = Inr break_point"
| "break_loop (s # rest) break_point =
     (case py_index s break_point of
        Inl e \<Rightarrow> Inl e
      | Inr i \<Rightarrow> break_loop rest
                  (if s ! i \<noteq> TAB_LINE_CHAR then break_point + 1 else break_point))"

text \<open>The \<^verbatim>\<open>while True\<close> loop; \<open>None\<close> is a loop that never leaves.\<close>

partial_function (option) render_while :: "string list \<Rightarrow> int \<Rightarrow> int \<Rightarrow> nat \<Rightarrow> int \<Rightarrow> int
    \<Rightarrow> string list \<Rightarrow> string list option" where
  "render_while fretboard staff_length break_point string_idx start end_pos output =
     (if py_slice_from (fretboard ! string_idx) start = [] \<and> start > staff_length
      then Some output
      else render_while fretboard staff_length break_point
             ((string_idx + 1) mod GUITAR_STRING) end_pos (end_pos + break_point)
             (output
              @ map (\<lambda>idx. GUITAR_STAFF idx @ py_slice (fretboard ! idx) start end_pos)
                  [0..<length fretboard]
              @ ['''']))"

declare render_while.simps [code]

text \<open>
  \<^verbatim>\<open>render\<close>; \<open>staff_length\<close> is the keyword argument, \<open>None\<close> when it is not
  given. The outer \<open>None\<close> of the result is a call that does not return.
\<close>

definition render :: "(string \<times> int \<times> int) list \<Rightarrow> int option
    \<Rightarrow> (error + string list) option" where
  "render notes_list staff_length_arg =
     (let staff_length = (case staff_length_arg of None \<Rightarrow> MAX_RENDER_COLUMNS | Some n \<Rightarrow> n)
      in case place_all (replicate GUITAR_STRING '''') notes_list of
           Inl e \<Rightarrow> Some (Inl e)
         | Inr fretboard \<Rightarrow>
             (let fretboard = pad_all fretboard
              in case break_loop fretboard staff_length of
                   Inl e \<Rightarrow> Some (Inl e)
                 | Inr break_point \<Rightarrow>
                     map_option Inr
                       (render_while fretboard staff_length break_point 0 0 break_point [])))"

section \<open>Notions used in the statements\<close>

text \<open>
  The positions \<open>(fret, string)\<close> of a row that the loops look at: the cells
  that pass \<^verbatim>\<open>if not note_fret: continue\<close>, in the order of the row.
\<close>

fun reachable :: "(int \<times> int option) list \<Rightarrow> (int \<times> int) list" where
  "reachable [] = []"
| "reachable ((note_string, None) # rest) = reachable rest"
| "reachable ((note_string, Some note_fret) # rest) =
     (if note_fret = 0 then reachable rest else (note_fret, note_string) # reachable rest)"

text \<open>
  The proximity update of \<^verbatim>\<open>note_nearest_to_fret\<close> for one position, and its
  run over a list of positions.
\<close>

fun closer :: "int \<Rightarrow> int \<times> int \<Rightarrow> int \<times> int \<times> int \<Rightarrow> int \<times> int \<times> int" where
  "closer fret (note_fret, note_string) (min_fret, min_string, min_diff) =
     (if \<bar>note_fret - fret\<bar> \<le> min_diff
      then (note_fret, note_string, \<bar>note_fret - fret\<bar>)
      else (min_fret, min_string, min_diff))"

definition prox :: "int \<Rightarrow> (int \<times> int) list \<Rightarrow> int \<times> int \<times> int \<Rightarrow> int \<times> int \<times> int" where
  "prox fret ps st = fold (closer fret) ps st"

text \<open>
  The state of the cache that \<^verbatim>\<open>generate_notes\<close> keeps for a fixed scale walk:
  only a pitch with no reachable position on the walk has an entry.
\<close>

definition cache_ok :: "(int \<times> int) list \<Rightarrow> (string \<rightharpoonup> int \<times> int) \<Rightarrow> bool" where
  "cache_ok S c = (\<forall>P x row. c P = Some x \<longrightarrow> NOTE_TO_STRING P = Some row
       \<longrightarrow> find (\<lambda>q. q \<in> set S) (reachable row) = None)"

text \<open>
  What music21 gives for the pitches of three scales, used as concrete inputs:
  C major from C4, C sharp major from C#2 and G flat major from G-4.
\<close>

definition C4_major :: "scale \<Rightarrow> string list" where
  "C4_major sc = [''C4'', ''D4'', ''E4'', ''F4'', ''G4'', ''A4'', ''B4'', ''C5'']"

definition Cis2_major :: "scale \<Rightarrow> string list" where
  "Cis2_major sc = [''C#2'', ''D#2'', ''E#2'', ''F#2'', ''G#2'', ''A#2'', ''B#2'', ''C#3'']"

definition Ges4_major :: "scale \<Rightarrow> string list" where
  "Ges4_major sc = [''G-4'', ''A-4'', ''B-4'', ''C-5'', ''D-5'', ''E-5'', ''F5'', ''G-5'']"

section \<open>The tables\<close>

lemma NOTE_TO_STRING_items_strings:
  "\<forall>(k, row) \<in> set NOTE_TO_STRING_items. map fst row = [1, 2, 3, 4, 5, 6]"
  by (simp add: NOTE_TO_STRING_items_def)

lemma NOTE_TO_STRING_strings:
  "NOTE_TO_STRING p = Some row \<Longrightarrow> map fst row = [1, 2, 3, 4, 5, 6]"
  unfolding NOTE_TO_STRING_def using NOTE_TO_STRING_items_strings
  by (auto dest!: map_of_SomeD)

lemma NOTE_TO_STRING_nonempty: "NOTE_TO_STRING p = Some row \<Longrightarrow> row \<noteq> []"
  by (drule NOTE_TO_STRING_strings) auto

lemma SCALE_length: "SCALE k = Some steps \<Longrightarrow> length steps = 7"
  by (auto simp: SCALE_def split: if_splits)

text \<open>
  C8. Enharmonic spellings are meant to share a row. The table has both
  spellings of G sharp 4, but of F sharp 4 it has only \<^verbatim>\<open>'F#4'\<close>: \<^verbatim>\<open>'Gb4'\<close> is
  not a key of \<^verbatim>\<open>NOTE_TO_STRING\<close>.
\<close>

theorem NOTE_TO_STRING_enharmonic_Gb4:
  "NOTE_TO_STRING ''G#4'' = NOTE_TO_STRING ''Ab4''
   \<and> NOTE_TO_STRING ''F#4''
       = Some [(1, Some 2), (2, Some 7), (3, Some 11), (4, Some 16), (5, Some 21), (6, None)]
   \<and> NOTE_TO_STRING ''Gb4'' = None"
  by (simp add: NOTE_TO_STRING_def NOTE_TO_STRING_items_def)

text \<open>
  C6. \<^verbatim>\<open>_get_scale\<close> has no branch for mixolydian or jazz_minor: both fall
  to the final \<^verbatim>\<open>else\<close> and give the major scale, although \<^verbatim>\<open>SCALE\<close> has a step
  table of its own for each, different from the major one.
\<close>

theorem get_scale_mixolydian_jazz_minor:
  "get_scale (p, ''mixolydian'') = MajorScale p
   \<and> get_scale (p, ''jazz_minor'') = MajorScale p
   \<and> get_scale (p, ''dorian'') = DorianScale p
   \<and> SCALE ''mixolydian'' = Some [2, 2, 1, 2, 2, 1, 2]
   \<and> SCALE ''jazz_minor'' = Some [2, 1, 2, 2, 2, 2, 1]
   \<and> SCALE ''major'' = Some [2, 2, 1, 2, 2, 2, 1]"
  by (simp add: SCALE_def MAJOR_def IONIAN_def MINOR_def AEOLIAN_def DORIAN_def
      PHRYGIAN_def LYDIAN_def LOCRIAN_def)

text \<open>
  C2. \<^verbatim>\<open>render\<close> on the single triple \<open>(C4, 2, 1)\<close> with \<^verbatim>\<open>staff_length=10\<close>: the
  six padded strings have three characters, and reading \<^verbatim>\<open>string[break_point]\<close>
  at position 10 raises \<^verbatim>\<open>IndexError\<close>; no line is returned.
\<close>

theorem render_single_triple_IndexError:
  "render [(''C4'', 2, 1)] (Some 10) = Some (Inl IndexError)"
  by (simp add: render_def place_def py_index_def GUITAR_STRING_def fill_step_def
      pad_all_def max_by_len_def TAB_LINE_CHAR_def str_int_def str_nat.simps digit_char_def
      upt_rec eval_nat_numeral)

section \<open>What the start-position finder returns\<close>

lemma find_start_loop_unreachable:
  "reachable note_info = [] \<Longrightarrow> find_start_loop steps note_info best = best"
  by (induction steps note_info best rule: find_start_loop.induct) (auto split: if_splits)

text \<open>
  C1, as the code has it. When the first pitch of the scale has a row in
  \<^verbatim>\<open>NOTE_TO_STRING\<close> with no reachable position, \<^verbatim>\<open>find_start\<close> returns
  \<open>(0, 0, [])\<close>; when the pitch has no row, the lookup raises \<^verbatim>\<open>KeyError\<close>.
\<close>

theorem find_start_no_position:
  assumes "fix_note_name (fst k) = Inr fixed"
    and "SCALE (snd k) = Some this_scale_step"
    and "pitches (get_scale k) = first_note # others"
    and "fix_note_name (Str first_note) = Inr name"
  shows "(NOTE_TO_STRING name = None \<longrightarrow> find_start pitches k = Inl KeyError)
       \<and> (\<forall>note_info. NOTE_TO_STRING name = Some note_info \<and> reachable note_info = []
            \<longrightarrow> find_start pitches k = Inr (0, 0, []))"
  using assms by (simp add: find_start_def find_start_loop_unreachable)

theorem find_start_no_position_witness:
  "find_start Cis2_major (Str ''C#2'', ''major'') = Inr (0, 0, [])
   \<and> find_start Ges4_major (Pitch ''G-4'' 4, ''major'') = Inl KeyError"
proof -
  have fx: "fix_note_name (Str ''C#2'') = Inr ''C#2''"
           "fix_note_name (Pitch ''G-4'' 4) = Inr ''Gb4''"
           "fix_note_name (Str ''G-4'') = Inr ''Gb4''"
    by (simp_all add: fix_note_name_def is_digit_def)
  have sc: "SCALE ''major'' = Some [2, 2, 1, 2, 2, 2, 1]"
    by (simp add: SCALE_def)
  have row: "NOTE_TO_STRING ''C#2''
      = Some [(1, None), (2, None), (3, None), (4, None), (5, None), (6, None)]"
    "NOTE_TO_STRING ''Gb4'' = None"
    by (simp_all add: NOTE_TO_STRING_def NOTE_TO_STRING_items_def)
  have a: "find_start Cis2_major (Str ''C#2'', ''major'') = Inr (0, 0, [])"
    using find_start_no_position [of "(Str ''C#2'', ''major'')" "''C#2''" "[2, 2, 1, 2, 2, 2, 1]"
        Cis2_major "''C#2''" _ "''C#2''"] fx sc row
    by (simp add: Cis2_major_def)
  have b: "find_start Ges4_major (Pitch ''G-4'' 4, ''major'') = Inl KeyError"
    using find_start_no_position [of "(Pitch ''G-4'' 4, ''major'')" "''Gb4''"
        "[2, 2, 1, 2, 2, 2, 1]" Ges4_major "''G-4''" _ "''Gb4''"] fx sc row
    by (simp add: Ges4_major_def)
  from a b show ?thesis by simp
qed

text \<open>
  C1, as the claim has it, fails: for the key C sharp 2 major the first pitch
  \<^verbatim>\<open>'C#2'\<close> has a row of six empty cells, and \<^verbatim>\<open>find_start\<close> returns normally.
\<close>

theorem find_start_Cis2_returns:
  "find_start Cis2_major (Str ''C#2'', ''major'') = Inr (0, 0, [])"
  by (simp add: find_start_def fix_note_name_def is_digit_def SCALE_def Cis2_major_def
      NOTE_TO_STRING_def NOTE_TO_STRING_items_def)

section \<open>What the note assigner returns\<close>

subsection \<open>One call of \<^verbatim>\<open>note_nearest_to_fret\<close>\<close>

lemma nearest_loop_char:
  "nearest_loop fret S cached items st =
    (case cached of
       Some c \<Rightarrow> (case reachable items of [] \<Rightarrow> Inr st | p # _ \<Rightarrow> Inl (if p \<in> set S then p else c))
     | None \<Rightarrow> (case find (\<lambda>p. p \<in> set S) (reachable items) of
                 Some m \<Rightarrow> Inl m | None \<Rightarrow> Inr (prox fret (reachable items) st)))"
  by (induction fret S cached items st rule: nearest_loop.induct)
     (auto simp: prox_def Let_def split: option.splits list.splits)

lemma note_nearest_to_fret_char:
  assumes "NOTE_TO_STRING P = Some row"
  shows "note_nearest_to_fret c fret P S =
    (case c P of
       Some x \<Rightarrow> (case reachable row of
                    [] \<Rightarrow> (Some (999, 999), c(P \<mapsto> (999, 999)))
                  | p # _ \<Rightarrow> (Some (if p \<in> set S then p else x), c))
     | None \<Rightarrow> (case find (\<lambda>p. p \<in> set S) (reachable row) of
                 Some m \<Rightarrow> (Some m, c)
               | None \<Rightarrow> (case prox fret (reachable row) (999, 999, 999) of
                            (mf, ms, md) \<Rightarrow> (Some (mf, ms), c(P \<mapsto> (mf, ms))))))"
  using assms NOTE_TO_STRING_nonempty [OF assms]
  by (simp add: note_nearest_to_fret_def nearest_loop_char split: option.splits list.splits prod.splits)

lemma note_nearest_to_fret_Some:
  "NOTE_TO_STRING P = Some row \<Longrightarrow> \<exists>f s c'. note_nearest_to_fret c fret P S = (Some (f, s), c')"
  by (simp add: note_nearest_to_fret_char split: option.splits list.splits prod.splits)

lemma note_nearest_to_fret_frame:
  "Q \<noteq> P \<Longrightarrow> snd (note_nearest_to_fret c fret P S) Q = c Q"
  by (auto simp: note_nearest_to_fret_def split: option.splits sum.splits prod.splits)

lemma note_nearest_to_fret_local:
  "c P = d P \<Longrightarrow> fst (note_nearest_to_fret c fret P S) = fst (note_nearest_to_fret d fret P S)
     \<and> snd (note_nearest_to_fret c fret P S) P = snd (note_nearest_to_fret d fret P S) P"
  by (auto simp: note_nearest_to_fret_def split: option.splits sum.splits prod.splits)

lemma prox_Nil: "prox fret [] st = st" by (simp add: prox_def)

lemma note_nearest_to_fret_settles:
  assumes "NOTE_TO_STRING P = Some row"
    and "note_nearest_to_fret c fret P S = (Some v, c')"
    and "d P = c' P"
  shows "fst (note_nearest_to_fret d fr P S) = Some v
       \<and> snd (note_nearest_to_fret d fr P S) P = c' P"
  using assms(2,3) unfolding note_nearest_to_fret_char [OF assms(1)]
  by (auto simp: prox_Nil split: option.splits list.splits prod.splits if_splits)

lemma cache_okD:
  assumes "cache_ok S c" and "c P = Some x" and "NOTE_TO_STRING P = Some row"
  shows "find (\<lambda>q. q \<in> set S) (reachable row) = None"
  using assms(1) [unfolded cache_ok_def, rule_format, OF assms(2) assms(3)] .

lemma prox_snoc: "prox fret (ps @ [x]) st = closer fret x (prox fret ps st)"
  by (simp add: prox_def)

lemma prox_props:
  "sorted (map snd ps) \<Longrightarrow> prox fret ps (a, b, m) = (mf, ms, md) \<Longrightarrow>
     (\<forall>f' s'. (f', s') \<in> set ps \<longrightarrow> md \<le> \<bar>f' - fret\<bar>)
   \<and> (((mf, ms, md) = (a, b, m) \<and> (\<forall>f' s'. (f', s') \<in> set ps \<longrightarrow> m < \<bar>f' - fret\<bar>))
      \<or> ((mf, ms) \<in> set ps \<and> md = \<bar>mf - fret\<bar>
          \<and> (\<forall>f' s'. (f', s') \<in> set ps \<longrightarrow> \<bar>f' - fret\<bar> = md \<longrightarrow> s' \<le> ms)))"
proof (induction ps arbitrary: mf ms md rule: rev_induct)
  case Nil
  then show ?case by (simp add: prox_def)
next
  case (snoc x ps)
  obtain xf xs where x: "x = (xf, xs)" by (cases x)
  obtain pf ps' pd where p: "prox fret ps (a, b, m) = (pf, ps', pd)"
    by (cases "prox fret ps (a, b, m)")
  from snoc.prems(1) have srt: "sorted (map snd ps)"
    and le: "\<forall>y \<in> set ps. snd y \<le> xs"
    by (auto simp: sorted_append x)
  note IH = snoc.IH [OF srt p]
  from snoc.prems(2) have c: "closer fret (xf, xs) (pf, ps', pd) = (mf, ms, md)"
    by (simp add: prox_snoc p x)
  show ?case
  proof (cases "\<bar>xf - fret\<bar> \<le> pd")
    case True
    with c have e: "mf = xf" "ms = xs" "md = \<bar>xf - fret\<bar>" by auto
    have "\<forall>f' s'. (f', s') \<in> set (ps @ [x]) \<longrightarrow> md \<le> \<bar>f' - fret\<bar>"
      using IH True e x by fastforce
    moreover have "(mf, ms) \<in> set (ps @ [x])" using e x by simp
    moreover have "\<forall>f' s'. (f', s') \<in> set (ps @ [x]) \<longrightarrow> \<bar>f' - fret\<bar> = md \<longrightarrow> s' \<le> ms"
      using le e x by fastforce
    ultimately show ?thesis using e by blast
  next
    case False
    with c have e: "mf = pf" "ms = ps'" "md = pd" by auto
    from False e IH x show ?thesis by auto
  qed
qed

lemma reachable_strings: "snd ` set (reachable row) \<subseteq> fst ` set row"
  by (induction row rule: reachable.induct) auto

lemma reachable_sorted: "sorted (map fst row) \<Longrightarrow> sorted (map snd (reachable row))"
proof (induction row rule: reachable.induct)
  case (3 note_string note_fret rest)
  from "3.prems" have srt: "sorted (map fst rest)"
    and le: "\<forall>x \<in> set rest. note_string \<le> fst x" by simp_all
  have "note_string \<le> snd y" if "y \<in> set (reachable rest)" for y
  proof -
    from that reachable_strings [of rest] have "snd y \<in> fst ` set rest" by blast
    with le show ?thesis by auto
  qed
  with "3.IH" srt show ?case by auto
qed auto

lemma NOTE_TO_STRING_reachable_sorted:
  "NOTE_TO_STRING p = Some row \<Longrightarrow> sorted (map snd (reachable row))"
  by (rule reachable_sorted) (simp add: NOTE_TO_STRING_strings)

lemma find_first_sorted:
  "sorted (map snd ps) \<Longrightarrow> find Q ps = Some (f, s) \<Longrightarrow> (f', s') \<in> set ps \<Longrightarrow> Q (f', s')
   \<Longrightarrow> s \<le> s'"
  by (induction ps) (auto split: if_splits)

lemma find_Some_holds: "find Q ps = Some x \<Longrightarrow> Q x \<and> x \<in> set ps"
  by (induction ps) (auto split: if_splits)

lemma find_exists: "x \<in> set ps \<Longrightarrow> Q x \<Longrightarrow> \<exists>y. find Q ps = Some y"
  by (induction ps) auto

lemma note_nearest_to_fret_ok:
  assumes "NOTE_TO_STRING P = Some row" and "cache_ok S c"
    and "note_nearest_to_fret c fret P S = (Some v, c1)"
  shows "cache_ok S c1 \<and> (\<forall>m. find (\<lambda>q. q \<in> set S) (reachable row) = Some m \<longrightarrow> v = m)"
proof (cases "find (\<lambda>q. q \<in> set S) (reachable row)")
  case None
  have "cache_ok S c1"
    unfolding cache_ok_def
  proof (intro allI impI)
    fix Q x row'
    assume a: "c1 Q = Some x" "NOTE_TO_STRING Q = Some row'"
    show "find (\<lambda>q. q \<in> set S) (reachable row') = None"
    proof (cases "Q = P")
      case True
      with a assms(1) None show ?thesis by simp
    next
      case False
      from note_nearest_to_fret_frame [OF False, of c fret S] assms(3) have "c1 Q = c Q" by simp
      with a have "c Q = Some x" by simp
      from cache_okD [OF assms(2) this a(2)] show ?thesis .
    qed
  qed
  with None show ?thesis by simp
next
  case (Some m)
  have cP: "c P = None"
  proof (cases "c P")
    case (Some x)
    from cache_okD [OF assms(2) this assms(1)] \<open>find (\<lambda>q. q \<in> set S) (reachable row) = Some m\<close>
    show ?thesis by simp
  qed simp
  from assms(3) cP Some have "v = m" "c1 = c"
    by (simp_all add: note_nearest_to_fret_char [OF assms(1)])
  with assms(2) Some show ?thesis by simp
qed

subsection \<open>The loop of \<^verbatim>\<open>generate_notes\<close>\<close>

lemma generate_loop_acc:
  "generate_loop S ns fret c acc =
     (case generate_loop S ns fret c [] of
        Inl e \<Rightarrow> Inl e
      | Inr (out, fr, c') \<Rightarrow> Inr (acc @ out, fr, c'))"
proof (induction ns arbitrary: fret c acc)
  case Nil
  then show ?case by simp
next
  case (Cons n ns)
  show ?case
  proof (cases "NOTE_TO_STRING (pitch_name n)")
    case None
    then show ?thesis using Cons.IH [of fret c acc] by simp
  next
    case (Some row)
    obtain f s c1 where r: "note_nearest_to_fret c fret (pitch_name n) S = (Some (f, s), c1)"
      using note_nearest_to_fret_Some [OF Some] by blast
    show ?thesis
      using Some r Cons.IH [of f c1 "acc @ [(pitch_name n, s, f)]"]
        Cons.IH [of f c1 "[(pitch_name n, s, f)]"]
      by (simp split: sum.splits prod.splits)
  qed
qed

lemma generate_loop_total:
  "\<exists>out fr c'. generate_loop S ns fret c acc = Inr (out, fr, c')"
proof (induction ns arbitrary: fret c acc)
  case Nil
  then show ?case by simp
next
  case (Cons n ns)
  show ?case
  proof (cases "NOTE_TO_STRING (pitch_name n)")
    case None
    then show ?thesis using Cons.IH by simp
  next
    case (Some row)
    obtain f s c1 where r: "note_nearest_to_fret c fret (pitch_name n) S = (Some (f, s), c1)"
      using note_nearest_to_fret_Some [OF Some] by blast
    show ?thesis using Some r Cons.IH by simp
  qed
qed

lemma generate_loop_Cons_present:
  assumes "NOTE_TO_STRING (pitch_name n) = Some row"
    and that: "generate_loop S (n # ns) fret c [] = Inr (out, fr, c')"
  shows "\<exists>f s c1 out2.
      note_nearest_to_fret c fret (pitch_name n) S = (Some (f, s), c1)
    \<and> generate_loop S ns f c1 [] = Inr (out2, fr, c')
    \<and> out = (pitch_name n, s, f) # out2"
proof -
  obtain f s c1 where r: "note_nearest_to_fret c fret (pitch_name n) S = (Some (f, s), c1)"
    using note_nearest_to_fret_Some [OF assms(1)] by blast
  obtain out2 fr2 c2 where g: "generate_loop S ns f c1 [] = Inr (out2, fr2, c2)"
    using generate_loop_total by blast
  have "generate_loop S (n # ns) fret c [] = Inr ([(pitch_name n, s, f)] @ out2, fr2, c2)"
    using assms(1) r g generate_loop_acc [of S ns f c1 "[(pitch_name n, s, f)]"] by simp
  with that have "out = (pitch_name n, s, f) # out2" "fr2 = fr" "c2 = c'" by simp_all
  with r g show ?thesis by blast
qed

lemma generate_loop_stable:
  assumes det: "\<And>d fr. d P = cp \<Longrightarrow> fst (note_nearest_to_fret d fr P S) = Some v
                  \<and> snd (note_nearest_to_fret d fr P S) P = cp"
  shows "c P = cp \<Longrightarrow> generate_loop S ns fret c [] = Inr (out, fr', c')
     \<Longrightarrow> c' P = cp \<and> (\<forall>s f. (P, s, f) \<in> set out \<longrightarrow> (f, s) = v)"
proof (induction ns arbitrary: fret c out)
  case Nil
  then show ?case by simp
next
  case (Cons n ns)
  show ?case
  proof (cases "NOTE_TO_STRING (pitch_name n)")
    case None
    then show ?thesis using Cons by simp
  next
    case (Some row)
    from generate_loop_Cons_present [OF Some Cons.prems(2)]
    obtain f s c1 out2 where
      r: "note_nearest_to_fret c fret (pitch_name n) S = (Some (f, s), c1)"
      and g: "generate_loop S ns f c1 [] = Inr (out2, fr', c')"
      and o: "out = (pitch_name n, s, f) # out2" by blast
    have c1P: "c1 P = cp"
    proof (cases "pitch_name n = P")
      case True
      then show ?thesis using det [of c fret] Cons.prems(1) r by simp
    next
      case False
      then show ?thesis
        using note_nearest_to_fret_frame [of P "pitch_name n" c fret S] r Cons.prems(1) by simp
    qed
    have hd: "pitch_name n = P \<Longrightarrow> (f, s) = v"
      using det [of c fret] Cons.prems(1) r by simp
    from Cons.IH [OF c1P g] hd o show ?thesis by auto
  qed
qed

lemma generate_loop_consistent:
  "generate_loop S ns fret c [] = Inr (out, fr', c')
   \<Longrightarrow> (p, s1, f1) \<in> set out \<Longrightarrow> (p, s2, f2) \<in> set out \<Longrightarrow> s1 = s2 \<and> f1 = f2"
proof (induction ns arbitrary: fret c out)
  case Nil
  then show ?case by simp
next
  case (Cons n ns)
  show ?case
  proof (cases "NOTE_TO_STRING (pitch_name n)")
    case None
    then show ?thesis using Cons by simp
  next
    case (Some row)
    from generate_loop_Cons_present [OF Some Cons.prems(1)]
    obtain f s c1 out2 where
      r: "note_nearest_to_fret c fret (pitch_name n) S = (Some (f, s), c1)"
      and g: "generate_loop S ns f c1 [] = Inr (out2, fr', c')"
      and o: "out = (pitch_name n, s, f) # out2" by blast
    have st: "\<forall>s' f'. (pitch_name n, s', f') \<in> set out2 \<longrightarrow> (f', s') = (f, s)"
      using generate_loop_stable [where P = "pitch_name n" and cp = "c1 (pitch_name n)"
          and v = "(f, s)" and S = S and c = c1, OF _ _ g]
        note_nearest_to_fret_settles [OF Some r] by blast
    show ?thesis
    proof (cases "p = pitch_name n")
      case True
      then show ?thesis using st Cons.prems(2,3) o by auto
    next
      case False
      then show ?thesis using Cons.IH [OF g] Cons.prems(2,3) o by auto
    qed
  qed
qed

lemma generate_loop_rerun:
  "generate_loop S ns fret c [] = Inr (out, fr, ce) \<Longrightarrow> (\<forall>P. d P = c P \<or> d P = ce P)
   \<Longrightarrow> generate_loop S ns fret d [] = Inr (out, fr, ce)"
proof (induction ns arbitrary: fret c d out)
  case Nil
  from Nil.prems(1) have e: "out = []" "fr = fret" "ce = c" by simp_all
  from Nil.prems(2) e have "d P = c P" for P by simp
  then have "d = c" by (rule ext)
  with e show ?case by simp
next
  case (Cons n ns)
  show ?case
  proof (cases "NOTE_TO_STRING (pitch_name n)")
    case None
    with Cons.prems(1) have "generate_loop S ns fret c [] = Inr (out, fr, ce)" by simp
    from Cons.IH [OF this Cons.prems(2)] None show ?thesis by simp
  next
    case (Some row)
    let ?P = "pitch_name n"
    from generate_loop_Cons_present [OF Some Cons.prems(1)]
    obtain f s c1 out2 where
      r: "note_nearest_to_fret c fret ?P S = (Some (f, s), c1)"
      and g: "generate_loop S ns f c1 [] = Inr (out2, fr, ce)"
      and o: "out = (?P, s, f) # out2" by blast
    have det: "fst (note_nearest_to_fret d' fr' ?P S) = Some (f, s)
        \<and> snd (note_nearest_to_fret d' fr' ?P S) ?P = c1 ?P" if "d' ?P = c1 ?P" for d' fr'
      using note_nearest_to_fret_settles [where d = d' and fr = fr', OF Some r that] .
    have ce: "ce ?P = c1 ?P"
      using generate_loop_stable [where P = ?P and cp = "c1 ?P"
          and v = "(f, s)" and S = S and c = c1, OF det refl g] by simp
    have dres: "fst (note_nearest_to_fret d fret ?P S) = Some (f, s)
        \<and> snd (note_nearest_to_fret d fret ?P S) ?P = c1 ?P"
    proof (cases "d ?P = c ?P")
      case True
      then have "c ?P = d ?P" by (rule sym)
      from note_nearest_to_fret_local [where c = c and d = d and P = ?P and fret = fret and S = S,
          OF this] r
      show ?thesis by simp
    next
      case False
      moreover from Cons.prems(2) have "d ?P = c ?P \<or> d ?P = ce ?P" by (rule spec)
      ultimately have "d ?P = c1 ?P" using ce by simp
      then show ?thesis by (rule det)
    qed
    obtain d1 where rd: "note_nearest_to_fret d fret ?P S = (Some (f, s), d1)"
      and d1P: "d1 ?P = c1 ?P"
      using dres by (cases "note_nearest_to_fret d fret ?P S") auto
    have rel: "\<forall>Q. d1 Q = c1 Q \<or> d1 Q = ce Q"
    proof
      fix Q
      show "d1 Q = c1 Q \<or> d1 Q = ce Q"
      proof (cases "Q = ?P")
        case True
        then show ?thesis using d1P by simp
      next
        case False
        have "d1 Q = d Q" using note_nearest_to_fret_frame [OF False, of d fret S] rd by simp
        moreover have "c1 Q = c Q" using note_nearest_to_fret_frame [OF False, of c fret S] r by simp
        moreover from Cons.prems(2) have "d Q = c Q \<or> d Q = ce Q" by (rule spec)
        ultimately show ?thesis by simp
      qed
    qed
    from Cons.IH [OF g rel] have "generate_loop S ns f d1 [] = Inr (out2, fr, ce)" .
    then show ?thesis
      using Some rd o generate_loop_acc [of S ns f d1 "[(?P, s, f)]"] by simp
  qed
qed

lemma generate_loop_pitches:
  "generate_loop S ns fret c [] = Inr (out, fr, c')
   \<Longrightarrow> map fst out = filter (\<lambda>p. NOTE_TO_STRING p \<noteq> None) (map pitch_name ns)"
proof (induction ns arbitrary: fret c out)
  case Nil
  then show ?case by simp
next
  case (Cons n ns)
  show ?case
  proof (cases "NOTE_TO_STRING (pitch_name n)")
    case None
    then show ?thesis using Cons by simp
  next
    case (Some row)
    from generate_loop_Cons_present [OF Some Cons.prems(1)]
    obtain f s c1 out2 where
      g: "generate_loop S ns f c1 [] = Inr (out2, fr, c')"
      and o: "out = (pitch_name n, s, f) # out2" by blast
    from Cons.IH [OF g] o Some show ?thesis by simp
  qed
qed

lemma generate_loop_ok:
  "cache_ok S c \<Longrightarrow> generate_loop S ns fret c [] = Inr (out, fr, c')
   \<Longrightarrow> cache_ok S c'
     \<and> (\<forall>p s f row m. (p, s, f) \<in> set out \<longrightarrow> NOTE_TO_STRING p = Some row
          \<longrightarrow> find (\<lambda>q. q \<in> set S) (reachable row) = Some m \<longrightarrow> (f, s) = m)"
proof (induction ns arbitrary: fret c out)
  case Nil
  then show ?case by simp
next
  case (Cons n ns)
  show ?case
  proof (cases "NOTE_TO_STRING (pitch_name n)")
    case None
    with Cons.prems(2) have "generate_loop S ns fret c [] = Inr (out, fr, c')" by simp
    from Cons.IH [OF Cons.prems(1) this] show ?thesis .
  next
    case (Some row)
    from generate_loop_Cons_present [OF Some Cons.prems(2)]
    obtain f s c1 out2 where
      r: "note_nearest_to_fret c fret (pitch_name n) S = (Some (f, s), c1)"
      and g: "generate_loop S ns f c1 [] = Inr (out2, fr, c')"
      and o: "out = (pitch_name n, s, f) # out2" by blast
    from note_nearest_to_fret_ok [OF Some Cons.prems(1) r]
    have ok1: "cache_ok S c1"
      and hd: "\<forall>m. find (\<lambda>q. q \<in> set S) (reachable row) = Some m \<longrightarrow> (f, s) = m"
      by simp_all
    from Cons.IH [OF ok1 g] hd o Some show ?thesis by auto
  qed
qed

lemma cache_ok_empty: "cache_ok S Map.empty"
  by (simp add: cache_ok_def)

subsection \<open>Concrete runs\<close>

lemma NOTE_TO_STRING_rows:
  "NOTE_TO_STRING ''C4''
     = Some [(1, None), (2, Some 1), (3, Some 5), (4, Some 10), (5, Some 15), (6, Some 20)]"
  "NOTE_TO_STRING ''E4''
     = Some [(1, None), (2, Some 5), (3, Some 9), (4, Some 14), (5, Some 19), (6, None)]"
  "NOTE_TO_STRING ''F3''
     = Some [(1, None), (2, None), (3, None), (4, Some 3), (5, Some 8), (6, Some 13)]"
  "NOTE_TO_STRING ''C#2''
     = Some [(1, None), (2, None), (3, None), (4, None), (5, None), (6, None)]"
  by (simp_all add: NOTE_TO_STRING_def NOTE_TO_STRING_items_def)

lemma find_start_C4_major:
  "find_start C4_major (Str ''C4'', ''major'')
     = Inr (5, 3, [(5, 3), (7, 3), (9, 3), (5, 2), (7, 2), (9, 2), (7, 1), (8, 1), (10, 1)])"
  by (simp add: find_start_def fix_note_name_def is_digit_def SCALE_def C4_major_def
      NOTE_TO_STRING_rows MAJOR_def IONIAN_def eval_nat_numeral)

lemma generate_notes_E4_E4:
  "generate_notes C4_major
     (init [\<lparr>pitch_name = ''E4'', time = 0\<rparr>, \<lparr>pitch_name = ''E4'', time = 480\<rparr>]
        (Str ''C4'', ''major''))
   = Inr ([(''E4'', 2, 5), (''E4'', 2, 5)],
          init [\<lparr>pitch_name = ''E4'', time = 0\<rparr>, \<lparr>pitch_name = ''E4'', time = 480\<rparr>]
            (Str ''C4'', ''major''))"
  by (simp add: generate_notes_def init_def find_start_C4_major NOTE_TO_STRING_rows
      note_nearest_to_fret_def)

lemma generate_notes_F3_C4_F3:
  "generate_notes C4_major
     (init [\<lparr>pitch_name = ''F3'', time = 0\<rparr>, \<lparr>pitch_name = ''C4'', time = 240\<rparr>,
            \<lparr>pitch_name = ''F3'', time = 480\<rparr>] (Str ''C4'', ''major''))
   = Inr ([(''F3'', 4, 3), (''C4'', 3, 5), (''F3'', 4, 3)],
          \<lparr>played_notes = [\<lparr>pitch_name = ''F3'', time = 0\<rparr>, \<lparr>pitch_name = ''C4'', time = 240\<rparr>,
              \<lparr>pitch_name = ''F3'', time = 480\<rparr>],
           key = (Str ''C4'', ''major''), notes_cache = [''F3'' \<mapsto> (3, 4)]\<rparr>)"
  by (simp add: generate_notes_def init_def find_start_C4_major NOTE_TO_STRING_rows
      note_nearest_to_fret_def)

subsection \<open>Properties of the assignment\<close>

text \<open>
  C3. \<^verbatim>\<open>generate_notes\<close> emits one triple for each note whose pitch has a row
  in \<^verbatim>\<open>NOTE_TO_STRING\<close>, in order, and all triples of one pitch carry the same
  string and fret: every later occurrence repeats the first. This holds for any
  cache the object starts with.
\<close>

theorem generate_notes_cache_consistent:
  assumes "generate_notes pitches self = Inr (to_play, self')"
  shows "map fst to_play
           = filter (\<lambda>p. NOTE_TO_STRING p \<noteq> None) (map pitch_name (played_notes self))
       \<and> (\<forall>p s1 f1 s2 f2. (p, s1, f1) \<in> set to_play \<and> (p, s2, f2) \<in> set to_play
            \<longrightarrow> s1 = s2 \<and> f1 = f2)"
proof -
  from assms obtain fret st S out fr c' where
    g: "generate_loop S (played_notes self) fret (notes_cache self) [] = Inr (out, fr, c')"
    and o: "to_play = out"
    by (auto simp: generate_notes_def split: sum.splits prod.splits)
  show ?thesis unfolding o
  proof (rule conjI)
    show "map fst out
        = filter (\<lambda>p. NOTE_TO_STRING p \<noteq> None) (map pitch_name (played_notes self))"
      by (rule generate_loop_pitches [OF g])
  next
    show "\<forall>p s1 f1 s2 f2. (p, s1, f1) \<in> set out \<and> (p, s2, f2) \<in> set out
        \<longrightarrow> s1 = s2 \<and> f1 = f2"
    proof (intro allI impI)
      fix p s1 f1 s2 f2
      assume a: "(p, s1, f1) \<in> set out \<and> (p, s2, f2) \<in> set out"
      from generate_loop_consistent [OF g conjunct1 [OF a] conjunct2 [OF a]]
      show "s1 = s2 \<and> f1 = f2" .
    qed
  qed
qed

theorem generate_notes_cache_consistent_witness:
  "generate_notes C4_major
     (init [\<lparr>pitch_name = ''E4'', time = 0\<rparr>, \<lparr>pitch_name = ''E4'', time = 480\<rparr>]
        (Str ''C4'', ''major''))
   = Inr ([(''E4'', 2, 5), (''E4'', 2, 5)],
          init [\<lparr>pitch_name = ''E4'', time = 0\<rparr>, \<lparr>pitch_name = ''E4'', time = 480\<rparr>]
            (Str ''C4'', ''major''))
   \<and> map fst [(''E4'', 2 :: int, 5 :: int), (''E4'', 2, 5)]
       = filter (\<lambda>p. NOTE_TO_STRING p \<noteq> None)
           (map pitch_name (played_notes
              (init [\<lparr>pitch_name = ''E4'', time = 0\<rparr>, \<lparr>pitch_name = ''E4'', time = 480\<rparr>]
                 (Str ''C4'', ''major''))))"
  using generate_notes_E4_E4
    generate_notes_cache_consistent [OF generate_notes_E4_E4, THEN conjunct1]
  by (rule conjI)

text \<open>
  C9. A second call of \<^verbatim>\<open>generate_notes\<close> on the object as the first call left
  it, with the cache filled by the first call, returns the same triples and leaves
  the object as it is.
\<close>

theorem generate_notes_idempotent:
  assumes "generate_notes pitches self = Inr (to_play, self')"
  shows "generate_notes pitches self' = Inr (to_play, self')"
proof -
  from assms obtain fret st S fr c' where
    fs: "find_start pitches (key self) = Inr (fret, st, S)"
    and g: "generate_loop S (played_notes self) fret (notes_cache self) [] = Inr (to_play, fr, c')"
    and s: "self' = self\<lparr>notes_cache := c'\<rparr>"
    by (auto simp: generate_notes_def split: sum.splits prod.splits)
  have "\<forall>P. c' P = notes_cache self P \<or> c' P = c' P" by simp
  from generate_loop_rerun [OF g this]
  have "generate_loop S (played_notes self) fret c' [] = Inr (to_play, fr, c')" .
  with fs s show ?thesis by (simp add: generate_notes_def)
qed

theorem generate_notes_idempotent_witness:
  "generate_notes C4_major
     \<lparr>played_notes = [\<lparr>pitch_name = ''F3'', time = 0\<rparr>, \<lparr>pitch_name = ''C4'', time = 240\<rparr>,
        \<lparr>pitch_name = ''F3'', time = 480\<rparr>],
      key = (Str ''C4'', ''major''), notes_cache = [''F3'' \<mapsto> (3, 4)]\<rparr>
   = Inr ([(''F3'', 4, 3), (''C4'', 3, 5), (''F3'', 4, 3)],
          \<lparr>played_notes = [\<lparr>pitch_name = ''F3'', time = 0\<rparr>, \<lparr>pitch_name = ''C4'', time = 240\<rparr>,
              \<lparr>pitch_name = ''F3'', time = 480\<rparr>],
           key = (Str ''C4'', ''major''), notes_cache = [''F3'' \<mapsto> (3, 4)]\<rparr>)"
  using generate_notes_idempotent [OF generate_notes_F3_C4_F3] .

text \<open>
  C4. In a run of \<^verbatim>\<open>generate_notes\<close> on a new object, a note whose pitch has a
  reachable position on the scale walk is given a position that is reachable and
  on the scale walk, and among all such positions the one on the lowest string
  number: the first match in the order of the row.
\<close>

theorem generate_notes_scale_priority:
  assumes "generate_notes pitches (init ns k) = Inr (to_play, self')"
    and "find_start pitches k = Inr (start_fret, start_string, scale_notes)"
    and "(p, s, f) \<in> set to_play"
    and "NOTE_TO_STRING p = Some row"
    and "(f', s') \<in> set (reachable row)"
    and "(f', s') \<in> set scale_notes"
  shows "(f, s) \<in> set (reachable row) \<and> (f, s) \<in> set scale_notes \<and> s \<le> s'"
proof -
  from assms(1,2) obtain fr c' where
    g: "generate_loop scale_notes ns start_fret Map.empty [] = Inr (to_play, fr, c')"
    by (auto simp: generate_notes_def init_def split: sum.splits prod.splits)
  from find_exists [where Q = "\<lambda>q. q \<in> set scale_notes", OF assms(5) assms(6)]
  obtain m where m: "find (\<lambda>q. q \<in> set scale_notes) (reachable row) = Some m" by blast
  from generate_loop_ok [OF cache_ok_empty g] assms(3,4) m have e: "(f, s) = m" by blast
  from find_Some_holds [OF m] e have "(f, s) \<in> set scale_notes" "(f, s) \<in> set (reachable row)"
    by simp_all
  moreover from find_first_sorted [OF NOTE_TO_STRING_reachable_sorted [OF assms(4)]
      m [folded e] assms(5) assms(6)]
  have "s \<le> s'" .
  ultimately show ?thesis by simp
qed

theorem generate_notes_scale_priority_witness:
  "(5, 2) \<in> set (reachable [(1, None), (2, Some 5), (3, Some 9), (4, Some 14), (5, Some 19),
                            (6, None)])
   \<and> (5, 2) \<in> set ([(5, 3), (7, 3), (9, 3), (5, 2), (7, 2), (9, 2), (7, 1), (8, 1), (10, 1)] :: (int \<times> int) list)
   \<and> (2 :: int) \<le> 3"
proof -
  have a: "(''E4'', 2, 5) \<in> set [(''E4'', 2 :: int, 5 :: int), (''E4'', 2, 5)]" by simp
  have b: "(9, 3) \<in> set (reachable [(1, None), (2, Some 5), (3, Some 9), (4, Some 14),
      (5, Some 19), (6, None)])" by simp
  have c: "(9, 3) \<in> set ([(5, 3), (7, 3), (9, 3), (5, 2), (7, 2), (9, 2), (7, 1), (8, 1),
      (10, 1)] :: (int \<times> int) list)" by simp
  from generate_notes_scale_priority [OF generate_notes_E4_E4 find_start_C4_major a
      NOTE_TO_STRING_rows(2) b c]
  show ?thesis .
qed

text \<open>
  C7, as the code has it. In the proximity branch (no cache entry, no reachable
  position on the scale walk) the test is \<^verbatim>\<open>diff <= min_diff\<close>, so of several
  positions at the least distance from the current fret the one met last in
  ascending string order wins: the highest string number. Here \<open>(f', s')\<close> is any
  reachable position within 999 frets of the current one.
\<close>

theorem note_nearest_to_fret_tie_last:
  assumes "NOTE_TO_STRING note_name = Some row"
    and "cache note_name = None"
    and "\<forall>q \<in> set (reachable row). q \<notin> set scale_notes"
    and "(f', s') \<in> set (reachable row)"
    and "\<bar>f' - fret\<bar> \<le> 999"
  shows "\<exists>f s. fst (note_nearest_to_fret cache fret note_name scale_notes) = Some (f, s)
       \<and> (f, s) \<in> set (reachable row)
       \<and> \<bar>f - fret\<bar> \<le> \<bar>f' - fret\<bar>
       \<and> (\<bar>f - fret\<bar> = \<bar>f' - fret\<bar> \<longrightarrow> s' \<le> s)"
proof -
  have nf: "find (\<lambda>q. q \<in> set scale_notes) (reachable row) = None"
    using assms(3) by (simp add: find_None_iff)
  obtain mf ms md where p: "prox fret (reachable row) (999, 999, 999) = (mf, ms, md)"
    by (cases "prox fret (reachable row) (999, 999, 999)")
  have res: "fst (note_nearest_to_fret cache fret note_name scale_notes) = Some (mf, ms)"
    by (simp add: note_nearest_to_fret_char [OF assms(1)] assms(2) nf p)
  note pp = prox_props [OF NOTE_TO_STRING_reachable_sorted [OF assms(1)] p]
  from pp have low: "md \<le> \<bar>f' - fret\<bar>" using assms(4) by blast
  from pp assms(4,5) have sel: "(mf, ms) \<in> set (reachable row)" "md = \<bar>mf - fret\<bar>"
    and tie: "\<forall>f' s'. (f', s') \<in> set (reachable row) \<longrightarrow> \<bar>f' - fret\<bar> = md \<longrightarrow> s' \<le> ms"
    by fastforce+
  from tie assms(4) sel(2) have "\<bar>mf - fret\<bar> = \<bar>f' - fret\<bar> \<longrightarrow> s' \<le> ms" by simp
  with res sel low show ?thesis by blast
qed

theorem note_nearest_to_fret_tie_last_witness:
  "\<exists>f s. fst (note_nearest_to_fret Map.empty 3 ''C4'' []) = Some (f, s)
       \<and> (f, s) \<in> set (reachable [(1, None), (2, Some 1), (3, Some 5), (4, Some 10),
                                   (5, Some 15), (6, Some 20)])
       \<and> \<bar>f - 3\<bar> \<le> \<bar>1 - 3\<bar>
       \<and> (\<bar>f - 3\<bar> = \<bar>1 - 3\<bar> \<longrightarrow> 2 \<le> s)"
proof -
  have a: "\<forall>q \<in> set (reachable [(1, None), (2, Some 1), (3, Some 5), (4, Some 10),
      (5, Some 15), (6, Some 20)]). q \<notin> set []" by simp
  have b: "(1, 2) \<in> set (reachable [(1, None), (2, Some 1), (3, Some 5), (4, Some 10),
      (5, Some 15), (6, Some 20)])" by simp
  have c: "\<bar>1 - 3 :: int\<bar> \<le> 999" by simp
  have d: "(Map.empty :: string \<rightharpoonup> int \<times> int) ''C4'' = None" by simp
  from note_nearest_to_fret_tie_last [OF NOTE_TO_STRING_rows(1) d a b c]
  show ?thesis .
qed

text \<open>
  C7, as the claim has it, fails: from fret 3, the positions of C4 on string 2
  (fret 1) and on string 3 (fret 5) are both two frets away; the call returns
  string 3, not the lower string 2.
\<close>

theorem note_nearest_to_fret_tie_C4:
  "NOTE_TO_STRING ''C4''
     = Some [(1, None), (2, Some 1), (3, Some 5), (4, Some 10), (5, Some 15), (6, Some 20)]
   \<and> note_nearest_to_fret Map.empty 3 ''C4'' [] = (Some (5, 3), [''C4'' \<mapsto> (5, 3)])"
  by (simp add: note_nearest_to_fret_def NOTE_TO_STRING_rows)

text \<open>
  C5, as the code has it. For a note with a row, one turn of the loop emits the
  chosen position and goes on with its fret as the current fret. A position
  chosen by proximity is written to the cache; a position taken from the scale
  walk is returned before the cache is written, and the cache stays as it was.
\<close>

theorem generate_loop_step_cache:
  assumes "NOTE_TO_STRING (pitch_name n) = Some row"
  shows "\<exists>f s cache'.
       note_nearest_to_fret cache fret (pitch_name n) scale_notes = (Some (f, s), cache')
     \<and> generate_loop scale_notes (n # ns) fret cache to_play
         = generate_loop scale_notes ns f cache' (to_play @ [(pitch_name n, s, f)])
     \<and> (cache (pitch_name n) = None \<and> (\<forall>q \<in> set (reachable row). q \<notin> set scale_notes)
          \<longrightarrow> cache' = cache(pitch_name n \<mapsto> (f, s)))
     \<and> (cache (pitch_name n) = None \<and> (\<exists>q \<in> set (reachable row). q \<in> set scale_notes)
          \<longrightarrow> (f, s) \<in> set scale_notes \<and> cache' = cache)"
proof -
  obtain f s cache' where
    r: "note_nearest_to_fret cache fret (pitch_name n) scale_notes = (Some (f, s), cache')"
    using note_nearest_to_fret_Some [OF assms] by blast
  have step: "generate_loop scale_notes (n # ns) fret cache to_play
      = generate_loop scale_notes ns f cache' (to_play @ [(pitch_name n, s, f)])"
    by (simp add: assms r)
  have prox_case: "cache' = cache(pitch_name n \<mapsto> (f, s))"
    if "cache (pitch_name n) = None \<and> (\<forall>q \<in> set (reachable row). q \<notin> set scale_notes)"
  proof -
    from that have "find (\<lambda>q. q \<in> set scale_notes) (reachable row) = None"
      by (simp add: find_None_iff)
    with that r show ?thesis
      by (auto simp: note_nearest_to_fret_char [OF assms] split: prod.splits)
  qed
  have scale_case: "(f, s) \<in> set scale_notes \<and> cache' = cache"
    if "cache (pitch_name n) = None \<and> (\<exists>q \<in> set (reachable row). q \<in> set scale_notes)"
  proof -
    from that obtain q where "q \<in> set (reachable row)" "q \<in> set scale_notes" by blast
    from find_exists [where Q = "\<lambda>q. q \<in> set scale_notes", OF this]
    obtain m where m: "find (\<lambda>q. q \<in> set scale_notes) (reachable row) = Some m" by blast
    with that r have "(f, s) = m" "cache' = cache"
      by (simp_all add: note_nearest_to_fret_char [OF assms])
    with find_Some_holds [OF m] show ?thesis by simp
  qed
  from r step prox_case scale_case show ?thesis by blast
qed

theorem generate_loop_step_cache_witness:
  "generate_loop [(5, 3), (7, 3), (9, 3), (5, 2), (7, 2), (9, 2), (7, 1), (8, 1), (10, 1)]
       [\<lparr>pitch_name = ''F3'', time = 0\<rparr>] 5 Map.empty []
     = Inr ([(''F3'', 4, 3)], 3, [''F3'' \<mapsto> (3, 4)])
   \<and> generate_loop [(5, 3), (7, 3), (9, 3), (5, 2), (7, 2), (9, 2), (7, 1), (8, 1), (10, 1)]
       [\<lparr>pitch_name = ''C4'', time = 0\<rparr>] 5 Map.empty []
     = Inr ([(''C4'', 3, 5)], 5, Map.empty)"
proof -
  let ?S = "[(5, 3), (7, 3), (9, 3), (5, 2), (7, 2), (9, 2), (7, 1), (8, 1), (10, 1)]
      :: (int \<times> int) list"
  have a: "NOTE_TO_STRING (pitch_name \<lparr>pitch_name = ''F3'', time = 0\<rparr>)
      = Some [(1, None), (2, None), (3, None), (4, Some 3), (5, Some 8), (6, Some 13)]"
    by (simp add: NOTE_TO_STRING_rows)
  have b: "NOTE_TO_STRING (pitch_name \<lparr>pitch_name = ''C4'', time = 0\<rparr>)
      = Some [(1, None), (2, Some 1), (3, Some 5), (4, Some 10), (5, Some 15), (6, Some 20)]"
    by (simp add: NOTE_TO_STRING_rows)
  have ra: "note_nearest_to_fret Map.empty 5 ''F3'' ?S = (Some (3, 4), [''F3'' \<mapsto> (3, 4)])"
    by (simp add: NOTE_TO_STRING_rows note_nearest_to_fret_def)
  have rb: "note_nearest_to_fret Map.empty 5 ''C4'' ?S = (Some (5, 3), Map.empty)"
    by (simp add: NOTE_TO_STRING_rows note_nearest_to_fret_def)
  from generate_loop_step_cache [OF a, of Map.empty 5 ?S "[]" "[]"] ra
  have "generate_loop ?S [\<lparr>pitch_name = ''F3'', time = 0\<rparr>] 5 Map.empty []
      = Inr ([(''F3'', 4, 3)], 3, [''F3'' \<mapsto> (3, 4)])"
    by auto
  moreover from generate_loop_step_cache [OF b, of Map.empty 5 ?S "[]" "[]"] rb
  have "generate_loop ?S [\<lparr>pitch_name = ''C4'', time = 0\<rparr>] 5 Map.empty []
      = Inr ([(''C4'', 3, 5)], 5, Map.empty)"
    by auto
  ultimately show ?thesis by (rule conjI)
qed

text \<open>
  C5, as the claim has it, fails: in C major from C4 the note C4 is placed on the
  scale walk at string 3, fret 5, and the cache has no entry for it afterwards.
\<close>

theorem generate_notes_scale_match_not_cached:
  "generate_notes C4_major (init [\<lparr>pitch_name = ''C4'', time = 0\<rparr>] (Str ''C4'', ''major''))
     = Inr ([(''C4'', 3, 5)],
            \<lparr>played_notes = [\<lparr>pitch_name = ''C4'', time = 0\<rparr>], key = (Str ''C4'', ''major''),
             notes_cache = Map.empty\<rparr>)
   \<and> notes_cache \<lparr>played_notes = [\<lparr>pitch_name = ''C4'', time = 0\<rparr>],
         key = (Str ''C4'', ''major''), notes_cache = Map.empty\<rparr> ''C4'' = None"
  by (simp add: generate_notes_def init_def find_start_C4_major NOTE_TO_STRING_rows
      note_nearest_to_fret_def)

text \<open>
  C10. A note whose pitch has a row with no reachable position is neither dropped
  nor an error: the loop emits the triple \<open>(pitch, 999, 999)\<close>, records
  \<open>(999, 999)\<close> in the cache and goes on with 999 as the current fret.
\<close>

theorem generate_loop_unreachable_sentinel:
  assumes "NOTE_TO_STRING (pitch_name n) = Some row" and "reachable row = []"
  shows "generate_loop scale_notes (n # ns) fret cache to_play
           = generate_loop scale_notes ns 999 (cache(pitch_name n \<mapsto> (999, 999)))
               (to_play @ [(pitch_name n, 999, 999)])
       \<and> (\<exists>out fr c'. generate_loop scale_notes (n # ns) fret cache to_play = Inr (out, fr, c')
            \<and> (pitch_name n, 999, 999) \<in> set out)"
proof -
  have r: "note_nearest_to_fret cache fret (pitch_name n) scale_notes
      = (Some (999, 999), cache(pitch_name n \<mapsto> (999, 999)))"
    by (simp add: note_nearest_to_fret_char [OF assms(1)] assms(2) prox_Nil split: option.splits)
  have step: "generate_loop scale_notes (n # ns) fret cache to_play
      = generate_loop scale_notes ns 999 (cache(pitch_name n \<mapsto> (999, 999)))
          (to_play @ [(pitch_name n, 999, 999)])"
    by (simp add: assms(1) r)
  obtain out2 fr c' where g: "generate_loop scale_notes ns 999
      (cache(pitch_name n \<mapsto> (999, 999))) [] = Inr (out2, fr, c')"
    using generate_loop_total by blast
  have "generate_loop scale_notes ns 999 (cache(pitch_name n \<mapsto> (999, 999)))
      (to_play @ [(pitch_name n, 999, 999)])
      = Inr ((to_play @ [(pitch_name n, 999, 999)]) @ out2, fr, c')"
    using generate_loop_acc [of scale_notes ns 999 "cache(pitch_name n \<mapsto> (999, 999))"
        "to_play @ [(pitch_name n, 999, 999)]"] g by simp
  with step have "generate_loop scale_notes (n # ns) fret cache to_play
      = Inr ((to_play @ [(pitch_name n, 999, 999)]) @ out2, fr, c')
      \<and> (pitch_name n, 999, 999) \<in> set ((to_play @ [(pitch_name n, 999, 999)]) @ out2)"
    by simp
  then have "\<exists>out fr c'. generate_loop scale_notes (n # ns) fret cache to_play = Inr (out, fr, c')
      \<and> (pitch_name n, 999, 999) \<in> set out" by blast
  with step show ?thesis by (rule conjI)
qed

theorem generate_loop_unreachable_sentinel_witness:
  "generate_loop [] [\<lparr>pitch_name = ''C#2'', time = 0\<rparr>, \<lparr>pitch_name = ''F3'', time = 240\<rparr>] 0
       Map.empty []
     = generate_loop [] [\<lparr>pitch_name = ''F3'', time = 240\<rparr>] 999 [''C#2'' \<mapsto> (999, 999)]
         [(''C#2'', 999, 999)]
   \<and> generate_loop [] [\<lparr>pitch_name = ''C#2'', time = 0\<rparr>, \<lparr>pitch_name = ''F3'', time = 240\<rparr>] 0
       Map.empty []
     = Inr ([(''C#2'', 999, 999), (''F3'', 6, 13)], 13,
            [''C#2'' \<mapsto> (999, 999), ''F3'' \<mapsto> (13, 6)])"
proof -
  have a: "NOTE_TO_STRING (pitch_name \<lparr>pitch_name = ''C#2'', time = 0\<rparr>)
      = Some [(1, None), (2, None), (3, None), (4, None), (5, None), (6, None)]"
    by (simp add: NOTE_TO_STRING_rows)
  have b: "reachable [(1, None), (2, None), (3, None), (4, None), (5, None), (6, None)] = []"
    by simp
  from generate_loop_unreachable_sentinel [OF a b, THEN conjunct1,
      of "[]" "[\<lparr>pitch_name = ''F3'', time = 240\<rparr>]" 0 Map.empty "[]"]
  have s: "generate_loop [] [\<lparr>pitch_name = ''C#2'', time = 0\<rparr>, \<lparr>pitch_name = ''F3'', time = 240\<rparr>] 0
       Map.empty []
     = generate_loop [] [\<lparr>pitch_name = ''F3'', time = 240\<rparr>] 999 [''C#2'' \<mapsto> (999, 999)]
         [(''C#2'', 999, 999)]" by simp
  have "generate_loop [] [\<lparr>pitch_name = ''F3'', time = 240\<rparr>] 999 [''C#2'' \<mapsto> (999, 999)]
         [(''C#2'', 999, 999)]
     = Inr ([(''C#2'', 999, 999), (''F3'', 6, 13)], 13,
            [''C#2'' \<mapsto> (999, 999), ''F3'' \<mapsto> (13, 6)])"
    by (simp add: NOTE_TO_STRING_rows note_nearest_to_fret_def)
  with s show ?thesis by simp
qed

end
